theory Spec2Isabelle
  imports Complex_Main
begin

section \<open>Numbers\<close>

text \<open>
  The program computes with JavaScript numbers. They are modelled as \<^typ>\<open>real\<close>: every value
  is a finite number and arithmetic is exact. The string fields \<open>shares\<close> and \<open>price\<close> of an
  asset are represented by the numbers that \<open>parseFloat(a.shares || '0')\<close> and
  \<open>parseFloat(a.price || '0')\<close> read from them (the form fields are numeric inputs), and the
  additional funds by \<open>parseFloat(additionalFunds || '0')\<close>.

  Where the rounding of the code's doubles decides a property, the optimizer is modelled a
  second time with every operation rounded to a double (the definitions with the suffix
  \<open>_fp\<close>).
\<close>

definition isNaN :: "real \<Rightarrow> bool" where
  \<comment> \<open>every value of the model is a number\<close>
  "isNaN x = False"

definition Math_round :: "real \<Rightarrow> real" where
  \<comment> \<open>\<open>Math.round\<close>: the nearest integer, a fraction of exactly one half going up\<close>
  "Math_round x = of_int \<lfloor>x + 1 / 2\<rfloor>"

section \<open>Data model\<close>

record Asset =
  code :: string
  name :: string
  target :: real
  shares :: real
  price :: real

text \<open>
  \<open>ComputedAsset\<close> without the four fields that the optimizer fills in: the element type
  of the optimizer's argument.
\<close>

record BasicAsset = Asset +
  marketValue :: real
  weight :: real
  delta :: real
  tradeShares :: real
  tradeAmount :: real

record ComputedAsset = BasicAsset +
  adjustedTradeShares :: real
  adjustedTradeAmount :: real
  finalWeight :: real
  finalDelta :: real

section \<open>The lot-constrained optimizer\<close>

definition roundToHundred :: "real \<Rightarrow> real" where
  "roundToHundred x = Math_round (x / 100) * 100"

definition maxIterations :: nat where
  "maxIterations = 20"

text \<open>
  \<open>qs.reduce((sum, shares, i) => sum + shares * prices[i], 0)\<close>
\<close>

definition totalAmount :: "real list \<Rightarrow> real list \<Rightarrow> real" where
  "totalAmount qs prices = foldl (\<lambda>sum i. sum + qs ! i * prices ! i) 0 [0..<length qs]"

text \<open>The variables of one scan for the best single-lot move.\<close>

record Best =
  bestImprovement :: real
  bestIndex :: int
  bestDirection :: real

text \<open>The variables of the search loop.\<close>

record Search =
  adjustedShares :: "real list"
  deviation :: real
  iter :: nat

text \<open>The body of the inner loop over the two directions.\<close>

definition tryDirection :: "real list \<Rightarrow> Search \<Rightarrow> nat \<Rightarrow> Best \<Rightarrow> real \<Rightarrow> Best" where
  "tryDirection prices s i best direction =
     (let newShares = adjustedShares s ! i + direction * 100;
          currentCost = adjustedShares s ! i * prices ! i;
          newCost = newShares * prices ! i;
          costChange = newCost - currentCost;
          newDeviation = deviation s + costChange;
          improvement = \<bar>deviation s\<bar> - \<bar>newDeviation\<bar>
      in if improvement > bestImprovement best
         then \<lparr>bestImprovement = improvement, bestIndex = int i, bestDirection = direction\<rparr>
         else best)"

text \<open>The body of the loop over the assets.\<close>

definition tryAsset :: "real list \<Rightarrow> Search \<Rightarrow> Best \<Rightarrow> nat \<Rightarrow> Best" where
  "tryAsset prices s best i =
     (if prices ! i \<le> 0 then best
      else foldl (tryDirection prices s i) best [- 1, 1])"

definition findBest :: "nat \<Rightarrow> real list \<Rightarrow> Search \<Rightarrow> Best" where
  "findBest n prices s =
     foldl (tryAsset prices s)
       \<lparr>bestImprovement = 0, bestIndex = - 1, bestDirection = 0\<rparr> [0..<n]"

text \<open>
  One pass through the body of the search loop, with the increment of \<open>iter\<close> that follows
  it; \<open>None\<close> is the \<open>break\<close>.
\<close>

definition searchBody :: "nat \<Rightarrow> real list \<Rightarrow> Search \<Rightarrow> Search option" where
  "searchBody n prices s =
     (let best = findBest n prices s
      in if bestIndex best \<ge> 0 \<and> bestImprovement best > 0
         then Some \<lparr>
           adjustedShares = (adjustedShares s)[nat (bestIndex best) :=
              adjustedShares s ! nat (bestIndex best) + bestDirection best * 100],
           deviation = deviation s + bestDirection best * 100 * prices ! nat (bestIndex best),
           iter = iter s + 1\<rparr>
         else None)"

definition searchCond :: "Search \<Rightarrow> bool" where
  "searchCond s \<longleftrightarrow> iter s < maxIterations \<and> \<bar>deviation s\<bar> > 100"

function searchLoop :: "nat \<Rightarrow> real list \<Rightarrow> Search \<Rightarrow> Search" where
  "searchLoop n prices s =
     (if searchCond s
      then (case searchBody n prices s of
              Some s' \<Rightarrow> searchLoop n prices s'
            | None \<Rightarrow> s)
      else s)"
  by pat_completeness auto
termination
  by (relation "measure (\<lambda>(n, prices, s). maxIterations - iter s)")
     (auto simp: searchCond_def searchBody_def Let_def split: if_splits)

declare searchLoop.simps [simp del]

definition seedShares :: "BasicAsset list \<Rightarrow> real list" where
  "seedShares computedAssets = map roundToHundred (map tradeShares computedAssets)"

definition seedDeviation :: "BasicAsset list \<Rightarrow> real" where
  "seedDeviation computedAssets =
     (let idealShares = map tradeShares computedAssets;
          prices = map price computedAssets;
          adjustedShares = seedShares computedAssets;
          totalAdjustedAmount = totalAmount adjustedShares prices;
          idealTotalAmount = totalAmount idealShares prices
      in totalAdjustedAmount - idealTotalAmount)"

definition optimizeTradeShares :: "BasicAsset list \<Rightarrow> real list" where
  "optimizeTradeShares computedAssets =
     (let n = length computedAssets;
          prices = map price computedAssets;
          adjustedShares = seedShares computedAssets;
          deviation = seedDeviation computedAssets
      in if \<bar>deviation\<bar> < 1000 then adjustedShares
         else Search.adjustedShares
                (searchLoop n prices
                   \<lparr>adjustedShares = adjustedShares, deviation = deviation, iter = 0\<rparr>))"

section \<open>The allocation calculator\<close>

definition currentTotal :: "Asset list \<Rightarrow> real" where
  "currentTotal assets =
     foldl (\<lambda>sum a. let mv = shares a * price a in sum + (if isNaN mv then 0 else mv)) 0 assets"

definition targetTotal :: "Asset list \<Rightarrow> real \<Rightarrow> real" where
  "targetTotal assets additional =
     currentTotal assets + (if isNaN additional then 0 else additional)"

definition basicComputed :: "Asset list \<Rightarrow> real \<Rightarrow> BasicAsset list" where
  "basicComputed assets additional =
     map (\<lambda>a.
       let sharesN = shares a;
           priceN = price a;
           marketValue = sharesN * priceN;
           currentWeight =
             (if currentTotal assets > 0 then (marketValue / currentTotal assets) * 100 else 0);
           delta = currentWeight - target a;
           targetMarketValue = (target a / 100) * targetTotal assets additional;
           tradeAmount = targetMarketValue - marketValue;
           tradeShares = (if priceN > 0 then tradeAmount / priceN else 0)
       in Asset.extend a (BasicAsset.fields marketValue currentWeight delta tradeShares tradeAmount))
     assets"

definition computedAssets :: "Asset list \<Rightarrow> real \<Rightarrow> ComputedAsset list" where
  "computedAssets assets additional =
     (let basic = basicComputed assets additional;
          optimizedShares = optimizeTradeShares basic
      in map (\<lambda>(a, i).
           let adjustedTradeShares = optimizedShares ! i;
               adjustedTradeAmount = adjustedTradeShares * price a;
               finalMarketValue = marketValue a + adjustedTradeAmount;
               finalWeight =
                 (if targetTotal assets additional > 0
                  then (finalMarketValue / targetTotal assets additional) * 100 else 0);
               finalDelta = finalWeight - target a
           in BasicAsset.extend a
                (ComputedAsset.fields adjustedTradeShares adjustedTradeAmount finalWeight finalDelta))
         (zip basic [0..<length basic]))"

definition totalTradeAmount :: "Asset list \<Rightarrow> real \<Rightarrow> real" where
  "totalTradeAmount assets additional =
     foldl (\<lambda>sum a. sum + tradeAmount a) 0 (computedAssets assets additional)"

section \<open>Notions used in the statements\<close>

text \<open>A quantity is a multiple of the lot size 100: \<open>q mod 100 == 0\<close>.\<close>

definition lotMultiple :: "real \<Rightarrow> bool" where
  "lotMultiple q \<longleftrightarrow> of_int \<lfloor>q / 100\<rfloor> * 100 = q"

text \<open>
  The sequence of the values that the variables of the search loop take at the loop head,
  from the state \<open>s\<close> on: the loop of \<^const>\<open>searchLoop\<close>, recording every state.
\<close>

function searchTrace :: "nat \<Rightarrow> real list \<Rightarrow> Search \<Rightarrow> Search list" where
  "searchTrace n prices s =
     s # (if searchCond s
          then (case searchBody n prices s of
                  Some s' \<Rightarrow> searchTrace n prices s'
                | None \<Rightarrow> [])
          else [])"
  by pat_completeness auto
termination
  by (relation "measure (\<lambda>(n, prices, s). maxIterations - iter s)")
     (auto simp: searchCond_def searchBody_def Let_def split: if_splits)

declare searchTrace.simps [simp del]





text \<open>
  An element of the optimizer's argument with the given ideal quantity and price; the
  optimizer reads no other field.
\<close>

definition idealAsset :: "real \<Rightarrow> real \<Rightarrow> BasicAsset" where
  "idealAsset q p =
     \<lparr>code = [], name = [], target = 0, shares = 0, price = p,
      marketValue = 0, weight = 0, delta = 0, tradeShares = q, tradeAmount = 0\<rparr>"

text \<open>An asset with the given target weight, held quantity and price.\<close>

definition holding :: "real \<Rightarrow> real \<Rightarrow> real \<Rightarrow> Asset" where
  "holding t q p = \<lparr>code = [], name = [], target = t, shares = q, price = p\<rparr>"

text \<open>What holds of the variables of a scan after every candidate.\<close>

definition bestOk :: "nat \<Rightarrow> real list \<Rightarrow> Search \<Rightarrow> Best \<Rightarrow> bool" where
  "bestOk n prices s b \<longleftrightarrow>
     0 \<le> bestImprovement b \<and>
     (bestIndex b = - 1 \<or>
      (\<exists>i d. i < n \<and> 0 < prices ! i \<and> (d = - 1 \<or> d = 1) \<and>
         b = \<lparr>bestImprovement = \<bar>deviation s\<bar> - \<bar>deviation s + d * 100 * prices ! i\<bar>,
               bestIndex = int i, bestDirection = d\<rparr>))"

text \<open>
  The states of the optimizer's search loop, from the seed on, for an argument that does not
  take the early exit.
\<close>

definition optimizerTrace :: "BasicAsset list \<Rightarrow> Search list" where
  "optimizerTrace cs =
     searchTrace (length cs) (map price cs)
       \<lparr>adjustedShares = seedShares cs, deviation = seedDeviation cs, iter = 0\<rparr>"

text \<open>
  What the search loop keeps true of the distance from the seed: after \<open>iter\<close> iterations
  the quantities differ from the seed by at most \<open>iter\<close> lots in total.
\<close>

definition movedBy :: "real list \<Rightarrow> Search \<Rightarrow> bool" where
  "movedBy seed t \<longleftrightarrow>
     iter t \<le> maxIterations \<and>
     (\<Sum>i<length seed. \<bar>adjustedShares t ! i - seed ! i\<bar>) \<le> 100 * real (iter t)"

section \<open>Double-precision arithmetic\<close>

text \<open>
  The code's numbers are IEEE 754 doubles: every arithmetic operation returns the double
  nearest to the exact result, ties going to the even significand. The functions below
  round a real to that double, for magnitudes below \<open>2^1024\<close> (larger ones, infinite in the
  code, are outside the model), and give the operations \<open>+\<close>, \<open>-\<close>, \<open>*\<close>, \<open>/\<close> on
  doubles. \<open>Math.abs\<close> and \<open>Math.round\<close> are exact on doubles.

  \<open>binaryExponent k x\<close> is the exponent \<open>e\<close> with \<open>2^e \<le> x < 2^(e+1)\<close> of a positive \<open>x\<close>,
  found by halving or doubling at most \<open>k\<close> times.
\<close>

fun binaryExponent :: "nat \<Rightarrow> real \<Rightarrow> int" where
  "binaryExponent 0 x = 0"
| "binaryExponent (Suc k) x =
     (if 2 \<le> x then binaryExponent k (x / 2) + 1
      else if x < 1 then binaryExponent k (x * 2) - 1
      else 0)"

text \<open>The nearest integer, a fraction of exactly one half going to the even neighbour.\<close>

definition roundTiesToEven :: "real \<Rightarrow> int" where
  "roundTiesToEven y =
     (let f = \<lfloor>y\<rfloor>; r = y - of_int f
      in if r < 1 / 2 then f else if 1 / 2 < r then f + 1 else if even f then f else f + 1)"

text \<open>
  The double nearest to \<open>x\<close>: 53 significant bits, the exponent not below that of the
  subnormal numbers.
\<close>

definition toDouble :: "real \<Rightarrow> real" where
  "toDouble x =
     (if x = 0 then 0
      else let e = max (binaryExponent 1100 \<bar>x\<bar>) (- 1022);
               k = e - 52;
               u = (if 0 \<le> k then 2 ^ nat k else 1 / 2 ^ nat (- k))
           in of_int (roundTiesToEven (x / u)) * u)"

definition fp_add :: "real \<Rightarrow> real \<Rightarrow> real" where
  "fp_add a b = toDouble (a + b)"

definition fp_sub :: "real \<Rightarrow> real \<Rightarrow> real" where
  "fp_sub a b = toDouble (a - b)"

definition fp_mul :: "real \<Rightarrow> real \<Rightarrow> real" where
  "fp_mul a b = toDouble (a * b)"

definition fp_div :: "real \<Rightarrow> real \<Rightarrow> real" where
  "fp_div a b = toDouble (a / b)"

section \<open>The optimizer in double-precision arithmetic\<close>

text \<open>
  The optimizer once more, line by line as above, with every arithmetic operation of the
  code rounded to a double. The update of \<open>deviation\<close> after a move is
  \<open>deviation += bestDirection * 100 * prices[bestIndex]\<close>, two products and a sum, whereas
  the score of the move comes from \<open>newCost - currentCost\<close>.
\<close>

definition roundToHundred_fp :: "real \<Rightarrow> real" where
  "roundToHundred_fp x = fp_mul (Math_round (fp_div x 100)) 100"

definition totalAmount_fp :: "real list \<Rightarrow> real list \<Rightarrow> real" where
  "totalAmount_fp qs prices =
     foldl (\<lambda>sum i. fp_add sum (fp_mul (qs ! i) (prices ! i))) 0 [0..<length qs]"

definition tryDirection_fp :: "real list \<Rightarrow> Search \<Rightarrow> nat \<Rightarrow> Best \<Rightarrow> real \<Rightarrow> Best" where
  "tryDirection_fp prices s i best direction =
     (let newShares = fp_add (adjustedShares s ! i) (fp_mul direction 100);
          currentCost = fp_mul (adjustedShares s ! i) (prices ! i);
          newCost = fp_mul newShares (prices ! i);
          costChange = fp_sub newCost currentCost;
          newDeviation = fp_add (deviation s) costChange;
          improvement = fp_sub \<bar>deviation s\<bar> \<bar>newDeviation\<bar>
      in if improvement > bestImprovement best
         then \<lparr>bestImprovement = improvement, bestIndex = int i, bestDirection = direction\<rparr>
         else best)"

definition tryAsset_fp :: "real list \<Rightarrow> Search \<Rightarrow> Best \<Rightarrow> nat \<Rightarrow> Best" where
  "tryAsset_fp prices s best i =
     (if prices ! i \<le> 0 then best
      else foldl (tryDirection_fp prices s i) best [- 1, 1])"

definition findBest_fp :: "nat \<Rightarrow> real list \<Rightarrow> Search \<Rightarrow> Best" where
  "findBest_fp n prices s =
     foldl (tryAsset_fp prices s)
       \<lparr>bestImprovement = 0, bestIndex = - 1, bestDirection = 0\<rparr> [0..<n]"

definition searchBody_fp :: "nat \<Rightarrow> real list \<Rightarrow> Search \<Rightarrow> Search option" where
  "searchBody_fp n prices s =
     (let best = findBest_fp n prices s
      in if bestIndex best \<ge> 0 \<and> bestImprovement best > 0
         then Some \<lparr>
           adjustedShares = (adjustedShares s)[nat (bestIndex best) :=
              fp_add (adjustedShares s ! nat (bestIndex best)) (fp_mul (bestDirection best) 100)],
           deviation = fp_add (deviation s)
              (fp_mul (fp_mul (bestDirection best) 100) (prices ! nat (bestIndex best))),
           iter = iter s + 1\<rparr>
         else None)"

function searchTrace_fp :: "nat \<Rightarrow> real list \<Rightarrow> Search \<Rightarrow> Search list" where
  "searchTrace_fp n prices s =
     s # (if searchCond s
          then (case searchBody_fp n prices s of
                  Some s' \<Rightarrow> searchTrace_fp n prices s'
                | None \<Rightarrow> [])
          else [])"
  by pat_completeness auto
termination
  by (relation "measure (\<lambda>(n, prices, s). maxIterations - iter s)")
     (auto simp: searchCond_def searchBody_fp_def Let_def split: if_splits)

declare searchTrace_fp.simps [simp del]

definition seedShares_fp :: "BasicAsset list \<Rightarrow> real list" where
  "seedShares_fp cs = map roundToHundred_fp (map tradeShares cs)"

definition seedDeviation_fp :: "BasicAsset list \<Rightarrow> real" where
  "seedDeviation_fp cs =
     (let idealShares = map tradeShares cs;
          prices = map price cs;
          adjustedShares = seedShares_fp cs;
          totalAdjustedAmount = totalAmount_fp adjustedShares prices;
          idealTotalAmount = totalAmount_fp idealShares prices
      in fp_sub totalAdjustedAmount idealTotalAmount)"

function searchLoop_fp :: "nat \<Rightarrow> real list \<Rightarrow> Search \<Rightarrow> Search" where
  "searchLoop_fp n prices s =
     (if searchCond s
      then (case searchBody_fp n prices s of
              Some s' \<Rightarrow> searchLoop_fp n prices s'
            | None \<Rightarrow> s)
      else s)"
  by pat_completeness auto
termination
  by (relation "measure (\<lambda>(n, prices, s). maxIterations - iter s)")
     (auto simp: searchCond_def searchBody_fp_def Let_def split: if_splits)

declare searchLoop_fp.simps [simp del]

definition optimizeTradeShares_fp :: "BasicAsset list \<Rightarrow> real list" where
  "optimizeTradeShares_fp cs =
     (let n = length cs;
          prices = map price cs;
          adjustedShares = seedShares_fp cs;
          deviation = seedDeviation_fp cs
      in if \<bar>deviation\<bar> < 1000 then adjustedShares
         else Search.adjustedShares
                (searchLoop_fp n prices
                   \<lparr>adjustedShares = adjustedShares, deviation = deviation, iter = 0\<rparr>))"

definition optimizerTrace_fp :: "BasicAsset list \<Rightarrow> Search list" where
  "optimizerTrace_fp cs =
     searchTrace_fp (length cs) (map price cs)
       \<lparr>adjustedShares = seedShares_fp cs, deviation = seedDeviation_fp cs, iter = 0\<rparr>"

text \<open>
  The optimizer's argument when the first asset has no holding and the price 32.02, the
  other four assets are empty and the additional funds are 134484: ideal quantity 1050 at
  price 32.02 for the first asset, and 0 at price 0 for the others.
\<close>

definition failingInput :: "BasicAsset list" where
  "failingInput =
     [idealAsset 1050 (toDouble (3202 / 100)), idealAsset 0 0, idealAsset 0 0,
      idealAsset 0 0, idealAsset 0 0]"

section \<open>Rounding to the lot size\<close>

lemma lotMultiple_of_int: "lotMultiple (of_int k * 100)"
  by (simp add: lotMultiple_def)

lemma lotMultiple_iff: "lotMultiple q \<longleftrightarrow> (\<exists>k::int. q = of_int k * 100)"
  by (auto simp: lotMultiple_def) metis

lemma lotMultiple_step:
  assumes "lotMultiple q" and "d = - 1 \<or> d = 0 \<or> d = 1"
  shows "lotMultiple (q + d * 100)"
proof -
  from assms(1) obtain k :: int where q: "q = of_int k * 100"
    by (auto simp: lotMultiple_iff)
  from assms(2) obtain e :: int where d: "d = of_int e"
    by (metis of_int_0 of_int_1 of_int_minus)
  have "q + d * 100 = of_int (k + e) * 100"
    by (simp add: q d algebra_simps)
  then show ?thesis
    by (simp only: lotMultiple_of_int)
qed

lemma roundToHundred_lot: "lotMultiple (roundToHundred x)"
  unfolding roundToHundred_def Math_round_def by (rule lotMultiple_of_int)

lemma roundToHundred_lower: "x - 50 < roundToHundred x"
proof -
  have "x / 100 + 1 / 2 < of_int \<lfloor>x / 100 + 1 / 2\<rfloor> + 1"
    by linarith
  then show ?thesis
    unfolding roundToHundred_def Math_round_def by linarith
qed

lemma roundToHundred_upper: "roundToHundred x \<le> x + 50"
proof -
  have "of_int \<lfloor>x / 100 + 1 / 2\<rfloor> \<le> x / 100 + 1 / 2"
    by linarith
  then show ?thesis
    unfolding roundToHundred_def Math_round_def by linarith
qed

text \<open>
  C1 (amended). The seed has one quantity per asset; each is a multiple of 100 and lies in
  the half-open interval from the ideal quantity minus 50 (excluded) to the ideal quantity
  plus 50 (included). So it is the multiple of 100 nearest to the ideal quantity, and an
  ideal quantity exactly halfway between two multiples goes to the larger one, towards
  plus infinity: 150 to 200 and -150 to -100.
\<close>

theorem seed_rounds_half_up:
  "length (seedShares cs) = length cs \<and>
   (\<forall>i < length cs.
      lotMultiple (seedShares cs ! i) \<and>
      tradeShares (cs ! i) - 50 < seedShares cs ! i \<and>
      seedShares cs ! i \<le> tradeShares (cs ! i) + 50)"
  by (simp add: seedShares_def roundToHundred_lot roundToHundred_lower roundToHundred_upper)

theorem seed_rounds_half_up_witness:
  "seedShares [idealAsset (- 150) 10, idealAsset 150 10, idealAsset 120 5] = [- 100, 200, 100]
   \<and> lotMultiple (- 100) \<and> - 150 - 50 < (- 100::real) \<and> (- 100::real) \<le> - 150 + 50"
  using seed_rounds_half_up [of "[idealAsset (- 150) 10, idealAsset 150 10, idealAsset 120 5]"]
  by (simp add: seedShares_def roundToHundred_def Math_round_def idealAsset_def lotMultiple_def)

text \<open>
  C1 as stated fails: an ideal quantity of -150 is seeded to -100, not to -200.
\<close>

theorem seed_half_away_counterexample:
  "seedShares [idealAsset (- 150) 10] = [- 100] \<and> seedShares [idealAsset (- 150) 10] \<noteq> [- 200]"
  by (simp add: seedShares_def roundToHundred_def Math_round_def idealAsset_def)

section \<open>The early exit\<close>

text \<open>
  C6. If the absolute value of the seed's deviation (the seed's aggregate amount minus the
  ideal aggregate amount) is below 1000, the optimizer returns the seed quantities.
\<close>

theorem early_exit_returns_seed:
  "\<bar>seedDeviation cs\<bar> < 1000 \<Longrightarrow> optimizeTradeShares cs = seedShares cs"
  by (simp add: optimizeTradeShares_def Let_def)

theorem early_exit_returns_seed_witness:
  "\<bar>seedDeviation [idealAsset 149 1, idealAsset 260 3]\<bar> < 1000 \<and>
   optimizeTradeShares [idealAsset 149 1, idealAsset 260 3] = [100, 300]"
proof -
  have h: "\<bar>seedDeviation [idealAsset 149 1, idealAsset 260 3]\<bar> < 1000"
    by code_simp
  have "seedShares [idealAsset 149 1, idealAsset 260 3] = [100, 300]"
    by code_simp
  with early_exit_returns_seed [OF h] h show ?thesis
    by simp
qed

section \<open>One scan and one iteration\<close>

lemma foldl_invariant:
  assumes "P a" and "\<And>a x. x \<in> set xs \<Longrightarrow> P a \<Longrightarrow> P (f a x)"
  shows "P (foldl f a xs)"
  using assms by (induction xs arbitrary: a) auto

lemma costChange_eq: "(a + d * 100) * p - a * p = d * 100 * (p::real)"
  by (simp add: algebra_simps)

lemma tryDirection_eq:
  "tryDirection prices s i best d =
     (if \<bar>deviation s\<bar> - \<bar>deviation s + d * 100 * prices ! i\<bar> > bestImprovement best
      then \<lparr>bestImprovement = \<bar>deviation s\<bar> - \<bar>deviation s + d * 100 * prices ! i\<bar>,
            bestIndex = int i, bestDirection = d\<rparr>
      else best)"
  by (simp add: tryDirection_def Let_def costChange_eq)

lemma bestOk_tryDirection:
  assumes "bestOk n prices s b" "i < n" "0 < prices ! i" "d = - 1 \<or> d = 1"
  shows "bestOk n prices s (tryDirection prices s i b d)"
proof (cases "\<bar>deviation s\<bar> - \<bar>deviation s + d * 100 * prices ! i\<bar> > bestImprovement b")
  case True
  with assms have "0 \<le> \<bar>deviation s\<bar> - \<bar>deviation s + d * 100 * prices ! i\<bar>"
    by (simp add: bestOk_def)
  with True assms(2-4) show ?thesis
    unfolding tryDirection_eq bestOk_def by (simp only: if_True Best.simps) blast
next
  case False
  with assms(1) show ?thesis by (simp add: tryDirection_eq)
qed

lemma bestOk_tryAsset:
  assumes "bestOk n prices s b" "i < n"
  shows "bestOk n prices s (tryAsset prices s b i)"
proof (cases "prices ! i \<le> 0")
  case True
  with assms(1) show ?thesis by (simp add: tryAsset_def)
next
  case False
  then have p: "0 < prices ! i" by simp
  have "bestOk n prices s (tryDirection prices s i b (- 1))"
    using bestOk_tryDirection [where d = "- 1", OF assms p] by simp
  then have "bestOk n prices s (tryDirection prices s i (tryDirection prices s i b (- 1)) 1)"
    using bestOk_tryDirection [where d = 1, OF _ assms(2) p] by simp
  with False show ?thesis by (simp add: tryAsset_def)
qed

lemma bestOk_findBest: "bestOk n prices s (findBest n prices s)"
  unfolding findBest_def
proof (rule foldl_invariant [where P = "bestOk n prices s"])
  show "bestOk n prices s \<lparr>bestImprovement = 0, bestIndex = - 1, bestDirection = 0\<rparr>"
    by (simp add: bestOk_def)
next
  fix b i
  assume "i \<in> set [0..<n]" and "bestOk n prices s b"
  then show "bestOk n prices s (tryAsset prices s b i)"
    by (simp add: bestOk_tryAsset)
qed

lemma searchBody_SomeD:
  assumes "searchBody n prices s = Some s'"
  shows "\<exists>i d. i < n \<and> 0 < prices ! i \<and> (d = - 1 \<or> d = 1) \<and>
           \<bar>deviation s + d * 100 * prices ! i\<bar> < \<bar>deviation s\<bar> \<and>
           s' = \<lparr>adjustedShares = (adjustedShares s)[i := adjustedShares s ! i + d * 100],
                  deviation = deviation s + d * 100 * prices ! i,
                  iter = iter s + 1\<rparr>"
proof -
  let ?b = "findBest n prices s"
  from assms have idx: "0 \<le> bestIndex ?b" and imp: "0 < bestImprovement ?b"
    and s': "s' = \<lparr>adjustedShares = (adjustedShares s)[nat (bestIndex ?b) :=
              adjustedShares s ! nat (bestIndex ?b) + bestDirection ?b * 100],
           deviation = deviation s + bestDirection ?b * 100 * prices ! nat (bestIndex ?b),
           iter = iter s + 1\<rparr>"
    by (auto simp: searchBody_def Let_def split: if_splits)
  from bestOk_findBest [of n prices s] idx obtain i d where
    id: "i < n" "0 < prices ! i" "d = - 1 \<or> d = 1"
    and b: "?b = \<lparr>bestImprovement = \<bar>deviation s\<bar> - \<bar>deviation s + d * 100 * prices ! i\<bar>,
               bestIndex = int i, bestDirection = d\<rparr>"
    unfolding bestOk_def by auto
  from b have sel: "bestImprovement ?b = \<bar>deviation s\<bar> - \<bar>deviation s + d * 100 * prices ! i\<bar>"
    "bestIndex ?b = int i" "bestDirection ?b = d"
    by simp_all
  from imp sel(1) have "\<bar>deviation s + d * 100 * prices ! i\<bar> < \<bar>deviation s\<bar>"
    by linarith
  with id s' sel(2,3) show ?thesis
    by (intro exI [of _ i] exI [of _ d]) simp
qed

lemma searchLoop_invariant:
  assumes "P s"
    and "\<And>s s'. P s \<Longrightarrow> searchCond s \<Longrightarrow> searchBody n prices s = Some s' \<Longrightarrow> P s'"
  shows "P (searchLoop n prices s)"
  using assms
proof (induction n prices s rule: searchLoop.induct)
  case (1 n prices s)
  show ?case
  proof (cases "searchCond s")
    case False
    with "1.prems"(1) show ?thesis by (simp add: searchLoop.simps [of n prices s])
  next
    case True
    show ?thesis
    proof (cases "searchBody n prices s")
      case None
      with True "1.prems"(1) show ?thesis by (simp add: searchLoop.simps [of n prices s])
    next
      case (Some s')
      from "1.prems"(2) [OF "1.prems"(1) True Some] have "P s'" .
      from "1.IH" [OF True Some this "1.prems"(2)] True Some show ?thesis
        by (simp add: searchLoop.simps [of n prices s])
    qed
  qed
qed


section \<open>Invariants of the search\<close>

lemma length_seedShares: "length (seedShares cs) = length cs"
  by (simp add: seedShares_def)

lemma searchBody_length:
  "searchBody n prices s = Some s' \<Longrightarrow> length (adjustedShares s') = length (adjustedShares s)"
  by (auto dest: searchBody_SomeD)

lemma searchLoop_length: "length (adjustedShares (searchLoop n prices s)) = length (adjustedShares s)"
  by (rule searchLoop_invariant [where P = "\<lambda>t. length (adjustedShares t) = length (adjustedShares s)"])
     (simp_all add: searchBody_length)

lemma length_optimizeTradeShares: "length (optimizeTradeShares cs) = length cs"
  by (simp add: optimizeTradeShares_def Let_def searchLoop_length length_seedShares)

lemma searchBody_lot:
  assumes "searchBody n prices s = Some s'" and "\<forall>q \<in> set (adjustedShares s). lotMultiple q"
  shows "\<forall>q \<in> set (adjustedShares s'). lotMultiple q"
proof -
  from searchBody_SomeD [OF assms(1)] obtain i d where d: "d = - 1 \<or> d = 1"
    and "s' = \<lparr>adjustedShares = (adjustedShares s)[i := adjustedShares s ! i + d * 100],
                  deviation = deviation s + d * 100 * prices ! i,
                  iter = iter s + 1\<rparr>"
    by blast
  then have s': "adjustedShares s' = (adjustedShares s)[i := adjustedShares s ! i + d * 100]"
    by simp
  show ?thesis
  proof (cases "i < length (adjustedShares s)")
    case True
    with assms(2) have "lotMultiple (adjustedShares s ! i)" by simp
    with d have "lotMultiple (adjustedShares s ! i + d * 100)"
      by (intro lotMultiple_step) auto
    with assms(2) show ?thesis
      unfolding s' using set_update_subset_insert [of "adjustedShares s" i] by blast
  next
    case False
    with assms(2) show ?thesis by (simp add: s' list_update_beyond)
  qed
qed

text \<open>
  C3. Every quantity that the optimizer returns is an integer multiple of 100: the seed
  quantities are, and every move of the search adds 100 or -100 to one of them.
\<close>

theorem optimized_lot_multiples:
  "\<forall>q \<in> set (optimizeTradeShares cs). lotMultiple q"
proof -
  have seed: "\<forall>q \<in> set (seedShares cs). lotMultiple q"
    by (auto simp: seedShares_def roundToHundred_lot)
  have "\<forall>q \<in> set (adjustedShares (searchLoop n prices
          \<lparr>adjustedShares = seedShares cs, deviation = dev, iter = 0\<rparr>)). lotMultiple q"
    for n prices dev
    by (rule searchLoop_invariant [where P = "\<lambda>t. \<forall>q \<in> set (adjustedShares t). lotMultiple q"])
       (use seed in \<open>auto dest: searchBody_lot\<close>)
  with seed show ?thesis
    by (simp add: optimizeTradeShares_def Let_def)
qed

theorem optimized_lot_multiples_witness:
  "optimizeTradeShares [idealAsset 149 30, idealAsset 149 30, idealAsset 149 1] = [200, 100, 100]
   \<and> lotMultiple 200 \<and> lotMultiple 100"
proof -
  have "optimizeTradeShares [idealAsset 149 30, idealAsset 149 30, idealAsset 149 1] = [200, 100, 100]"
    by code_simp
  with optimized_lot_multiples [of "[idealAsset 149 30, idealAsset 149 30, idealAsset 149 1]"]
  show ?thesis by simp
qed


lemma searchTrace_hd: "hd (searchTrace n prices s) = s"
  by (simp add: searchTrace.simps [of n prices s])

lemma searchTrace_nonempty: "searchTrace n prices s \<noteq> []"
  by (simp add: searchTrace.simps [of n prices s])

lemma searchTrace_last: "last (searchTrace n prices s) = searchLoop n prices s"
proof (induction n prices s rule: searchLoop.induct)
  case (1 n prices s)
  show ?case
  proof (cases "searchCond s")
    case False
    then show ?thesis
      by (simp add: searchTrace.simps [of n prices s] searchLoop.simps [of n prices s])
  next
    case True
    show ?thesis
    proof (cases "searchBody n prices s")
      case None
      with True show ?thesis
        by (simp add: searchTrace.simps [of n prices s] searchLoop.simps [of n prices s])
    next
      case (Some s')
      with True "1.IH" [OF True Some] show ?thesis
        by (simp add: searchTrace.simps [of n prices s] searchLoop.simps [of n prices s]
            searchTrace_nonempty)
    qed
  qed
qed

lemma searchTrace_length: "length (searchTrace n prices s) \<le> Suc (maxIterations - iter s)"
proof (induction n prices s rule: searchTrace.induct)
  case (1 n prices s)
  show ?case
  proof (cases "searchCond s")
    case False
    then show ?thesis
      by (simp add: searchTrace.simps [of n prices s])
  next
    case True
    show ?thesis
    proof (cases "searchBody n prices s")
      case None
      with True show ?thesis
        by (simp add: searchTrace.simps [of n prices s])
    next
      case (Some s')
      from searchBody_SomeD [OF Some] have "iter s' = iter s + 1" by auto
      moreover from True have "iter s < maxIterations" by (simp add: searchCond_def)
      ultimately show ?thesis
        using True Some "1.IH" [OF True Some]
        by (simp add: searchTrace.simps [of n prices s])
    qed
  qed
qed

lemma searchTrace_step:
  "Suc k < length (searchTrace n prices s) \<Longrightarrow>
     searchCond (searchTrace n prices s ! k) \<and>
     searchBody n prices (searchTrace n prices s ! k) = Some (searchTrace n prices s ! Suc k)"
proof (induction n prices s arbitrary: k rule: searchTrace.induct)
  case (1 n prices s)
  show ?case
  proof (cases "searchCond s")
    case False
    with "1.prems" show ?thesis
      by (simp add: searchTrace.simps [of n prices s])
  next
    case True
    show ?thesis
    proof (cases "searchBody n prices s")
      case None
      with True "1.prems" show ?thesis
        by (simp add: searchTrace.simps [of n prices s])
    next
      case (Some s')
      have unfold: "searchTrace n prices s = s # searchTrace n prices s'"
        using True Some by (simp add: searchTrace.simps [of n prices s])
      show ?thesis
      proof (cases k)
        case 0
        have "searchTrace n prices s' ! 0 = s'"
          using searchTrace_hd [of n prices s'] searchTrace_nonempty [of n prices s']
          by (simp add: hd_conv_nth)
        with 0 True Some show ?thesis
          by (simp add: unfold)
      next
        case (Suc j)
        with "1.prems" have "Suc j < length (searchTrace n prices s')"
          by (simp add: unfold)
        from "1.IH" [OF True Some this] Suc show ?thesis
          by (simp add: unfold)
      qed
    qed
  qed
qed

lemma searchTrace_iter:
  "k < length (searchTrace n prices s) \<Longrightarrow> iter (searchTrace n prices s ! k) = iter s + k"
proof (induction k)
  case 0
  then show ?case
    using searchTrace_hd [of n prices s] by (simp add: hd_conv_nth searchTrace_nonempty)
next
  case (Suc k)
  from searchTrace_step [OF Suc.prems] searchBody_SomeD
  have "iter (searchTrace n prices s ! Suc k) = iter (searchTrace n prices s ! k) + 1"
    by fastforce
  with Suc show ?case by simp
qed

lemma searchTrace_decrease:
  assumes "Suc k < length (searchTrace n prices s)"
  shows "\<bar>deviation (searchTrace n prices s ! Suc k)\<bar> < \<bar>deviation (searchTrace n prices s ! k)\<bar>"
proof -
  from searchTrace_step [OF assms]
  have "searchBody n prices (searchTrace n prices s ! k) = Some (searchTrace n prices s ! Suc k)"
    by simp
  from searchBody_SomeD [OF this] show ?thesis
    by fastforce
qed

text \<open>
  With exact arithmetic the search is monotone. When the early exit is not taken, the
  optimizer returns the quantities of the last state of the search. The search visits at
  most 21 states, that is, it performs at most 20 iterations. Every iteration that applies
  a move starts from a state whose absolute deviation exceeds 100, and the move makes the
  absolute deviation strictly smaller. In the code's double arithmetic the last part fails,
  see \<open>deviation_rises_in_double_arithmetic\<close> below.
\<close>

theorem search_monotone_bounded:
  "(\<not> \<bar>seedDeviation cs\<bar> < 1000 \<longrightarrow>
      optimizeTradeShares cs = adjustedShares (last (optimizerTrace cs))) \<and>
   length (optimizerTrace cs) \<le> Suc maxIterations \<and>
   (\<forall>k. Suc k < length (optimizerTrace cs) \<longrightarrow>
      iter (optimizerTrace cs ! k) = k \<and>
      \<bar>deviation (optimizerTrace cs ! k)\<bar> > 100 \<and>
      \<bar>deviation (optimizerTrace cs ! Suc k)\<bar> < \<bar>deviation (optimizerTrace cs ! k)\<bar>)"
proof (intro conjI allI impI)
  assume "\<not> \<bar>seedDeviation cs\<bar> < 1000"
  then show "optimizeTradeShares cs = adjustedShares (last (optimizerTrace cs))"
    by (simp add: optimizeTradeShares_def optimizerTrace_def Let_def searchTrace_last)
next
  show "length (optimizerTrace cs) \<le> Suc maxIterations"
    using searchTrace_length [of "length cs" "map price cs"
        "\<lparr>adjustedShares = seedShares cs, deviation = seedDeviation cs, iter = 0\<rparr>"]
    by (simp add: optimizerTrace_def)
next
  fix k
  assume k: "Suc k < length (optimizerTrace cs)"
  then show "iter (optimizerTrace cs ! k) = k"
    by (simp add: optimizerTrace_def searchTrace_iter)
  from k show "\<bar>deviation (optimizerTrace cs ! k)\<bar> > 100"
    using searchTrace_step [of k "length cs" "map price cs"]
    by (simp add: optimizerTrace_def searchCond_def)
  from k show "\<bar>deviation (optimizerTrace cs ! Suc k)\<bar> < \<bar>deviation (optimizerTrace cs ! k)\<bar>"
    unfolding optimizerTrace_def by (rule searchTrace_decrease)
qed

theorem search_monotone_bounded_witness:
  "optimizerTrace [idealAsset 149 30, idealAsset 149 30, idealAsset 149 1] =
     [\<lparr>adjustedShares = [100, 100, 100], deviation = - 2989, iter = 0\<rparr>,
      \<lparr>adjustedShares = [200, 100, 100], deviation = 11, iter = 1\<rparr>] \<and>
   \<not> \<bar>seedDeviation [idealAsset 149 30, idealAsset 149 30, idealAsset 149 1]\<bar> < 1000 \<and>
   optimizeTradeShares [idealAsset 149 30, idealAsset 149 30, idealAsset 149 1] = [200, 100, 100] \<and>
   \<bar>- 2989 :: real\<bar> > 100 \<and> \<bar>11 :: real\<bar> < \<bar>- 2989\<bar>"
proof -
  let ?cs = "[idealAsset 149 30, idealAsset 149 30, idealAsset 149 1]"
  have t: "optimizerTrace ?cs =
     [\<lparr>adjustedShares = [100, 100, 100], deviation = - 2989, iter = 0\<rparr>,
      \<lparr>adjustedShares = [200, 100, 100], deviation = 11, iter = 1\<rparr>]"
    by code_simp
  have d: "\<not> \<bar>seedDeviation ?cs\<bar> < 1000"
    by code_simp
  from search_monotone_bounded [of ?cs] d
  have "optimizeTradeShares ?cs = adjustedShares (last (optimizerTrace ?cs))"
    and "Suc 0 < length (optimizerTrace ?cs) \<longrightarrow>
      \<bar>deviation (optimizerTrace ?cs ! 0)\<bar> > 100 \<and>
      \<bar>deviation (optimizerTrace ?cs ! Suc 0)\<bar> < \<bar>deviation (optimizerTrace ?cs ! 0)\<bar>"
    by blast+
  with t d show ?thesis by simp
qed



section \<open>Distance from the seed\<close>

lemma moved_sum_step:
  fixes xs seed :: "real list"
  assumes "d = - 1 \<or> d = 1"
  shows "(\<Sum>i<m. \<bar>xs[j := xs ! j + d * 100] ! i - seed ! i\<bar>) \<le> (\<Sum>i<m. \<bar>xs ! i - seed ! i\<bar>) + 100"
proof -
  have each: "\<bar>xs[j := xs ! j + d * 100] ! i - seed ! i\<bar>
                \<le> \<bar>xs ! i - seed ! i\<bar> + (if i = j then 100 else 0)" for i
  proof (cases "i = j \<and> j < length xs")
    case True
    with assms show ?thesis by auto
  next
    case False
    then have "xs[j := xs ! j + d * 100] ! i = xs ! i"
      by (cases "i = j") (simp_all add: list_update_beyond)
    then show ?thesis by simp
  qed
  have "(\<Sum>i<m. \<bar>xs[j := xs ! j + d * 100] ! i - seed ! i\<bar>)
          \<le> (\<Sum>i<m. \<bar>xs ! i - seed ! i\<bar> + (if i = j then 100 else 0))"
    by (rule sum_mono) (rule each)
  also have "\<dots> = (\<Sum>i<m. \<bar>xs ! i - seed ! i\<bar>) + (\<Sum>i<m. if i = j then 100 else 0)"
    by (rule sum.distrib)
  also have "(\<Sum>i<m. if i = j then 100 else 0) \<le> (100::real)"
    by simp
  finally show ?thesis by simp
qed

lemma movedBy_step:
  assumes "movedBy seed s" "searchCond s" "searchBody n prices s = Some s'"
  shows "movedBy seed s'"
proof -
  from searchBody_SomeD [OF assms(3)] obtain i d where d: "d = - 1 \<or> d = 1"
    and "s' = \<lparr>adjustedShares = (adjustedShares s)[i := adjustedShares s ! i + d * 100],
                  deviation = deviation s + d * 100 * prices ! i,
                  iter = iter s + 1\<rparr>"
    by blast
  then have adj: "adjustedShares s' = (adjustedShares s)[i := adjustedShares s ! i + d * 100]"
    and it: "iter s' = iter s + 1"
    by simp_all
  from assms(2) have "iter s' \<le> maxIterations"
    by (simp add: it searchCond_def)
  moreover have "(\<Sum>k<length seed. \<bar>adjustedShares s' ! k - seed ! k\<bar>) \<le> 100 * real (iter s')"
    using moved_sum_step [OF d, where m = "length seed" and xs = "adjustedShares s" and j = i and seed = seed] assms(1)
    by (simp add: adj it movedBy_def)
  ultimately show ?thesis
    by (simp add: movedBy_def)
qed

lemma movedBy_searchLoop:
  "movedBy seed (searchLoop n prices \<lparr>adjustedShares = seed, deviation = dev, iter = 0\<rparr>)"
proof (rule searchLoop_invariant [where P = "movedBy seed"])
  show "movedBy seed \<lparr>adjustedShares = seed, deviation = dev, iter = 0\<rparr>"
    by (simp add: movedBy_def)
next
  fix s s'
  assume "movedBy seed s" "searchCond s" "searchBody n prices s = Some s'"
  then show "movedBy seed s'"
    by (rule movedBy_step)
qed

lemma optimize_total_moved:
  "(\<Sum>i<length cs. \<bar>optimizeTradeShares cs ! i - seedShares cs ! i\<bar>) \<le> 2000"
proof (cases "\<bar>seedDeviation cs\<bar> < 1000")
  case True
  then show ?thesis
    by (simp add: optimizeTradeShares_def Let_def)
next
  case False
  let ?r = "searchLoop (length cs) (map price cs)
              \<lparr>adjustedShares = seedShares cs, deviation = seedDeviation cs, iter = 0\<rparr>"
  have "movedBy (seedShares cs) ?r"
    by (rule movedBy_searchLoop)
  then have "(\<Sum>i<length cs. \<bar>adjustedShares ?r ! i - seedShares cs ! i\<bar>) \<le> 100 * real (iter ?r)"
    and "real (iter ?r) \<le> 20"
    by (simp_all add: movedBy_def length_seedShares maxIterations_def)
  then have "(\<Sum>i<length cs. \<bar>adjustedShares ?r ! i - seedShares cs ! i\<bar>) \<le> 2000"
    by linarith
  with False show ?thesis
    by (simp add: optimizeTradeShares_def Let_def)
qed

text \<open>
  C10. The optimizer returns one quantity per asset. Summed over all assets, the returned
  quantities differ from the seed by at most 20 lots, and so each of them differs from its
  seed value by at most 2000 units: an iteration moves one asset by one lot, and there are
  at most 20 iterations.
\<close>

theorem moved_at_most_twenty_lots:
  "length (optimizeTradeShares cs) = length cs \<and>
   (\<Sum>i<length cs. \<bar>optimizeTradeShares cs ! i - seedShares cs ! i\<bar> / 100) \<le> 20 \<and>
   (\<forall>i<length cs. \<bar>optimizeTradeShares cs ! i - seedShares cs ! i\<bar> \<le> 2000)"
proof (intro conjI allI impI)
  show "length (optimizeTradeShares cs) = length cs"
    by (rule length_optimizeTradeShares)
  have "(\<Sum>i<length cs. \<bar>optimizeTradeShares cs ! i - seedShares cs ! i\<bar> / 100)
          = (\<Sum>i<length cs. \<bar>optimizeTradeShares cs ! i - seedShares cs ! i\<bar>) / 100"
    by (simp add: sum_divide_distrib)
  with optimize_total_moved [of cs]
  show "(\<Sum>i<length cs. \<bar>optimizeTradeShares cs ! i - seedShares cs ! i\<bar> / 100) \<le> 20"
    by simp
next
  fix i
  assume "i < length cs"
  then have "\<bar>optimizeTradeShares cs ! i - seedShares cs ! i\<bar>
               \<le> (\<Sum>i<length cs. \<bar>optimizeTradeShares cs ! i - seedShares cs ! i\<bar>)"
    by (intro member_le_sum) simp_all
  with optimize_total_moved [of cs]
  show "\<bar>optimizeTradeShares cs ! i - seedShares cs ! i\<bar> \<le> 2000"
    by linarith
qed

theorem moved_at_most_twenty_lots_witness:
  "optimizeTradeShares [idealAsset 149 30, idealAsset 149 30, idealAsset 149 30, idealAsset 49 250]
     = [- 200, 100, 100, 100] \<and>
   seedShares [idealAsset 149 30, idealAsset 149 30, idealAsset 149 30, idealAsset 49 250]
     = [100, 100, 100, 0] \<and>
   \<bar>- 200 - 100 :: real\<bar> \<le> 2000 \<and>
   (\<bar>- 200 - 100 :: real\<bar> + \<bar>100 - 100\<bar> + \<bar>100 - 100\<bar> + \<bar>100 - 0\<bar>) / 100 \<le> 20"
proof -
  let ?cs = "[idealAsset 149 30, idealAsset 149 30, idealAsset 149 30, idealAsset 49 250]"
  have o: "optimizeTradeShares ?cs = [- 200, 100, 100, 100]"
    by code_simp
  have s: "seedShares ?cs = [100, 100, 100, 0]"
    by code_simp
  from moved_at_most_twenty_lots [of ?cs]
  have "\<bar>optimizeTradeShares ?cs ! 0 - seedShares ?cs ! 0\<bar> \<le> 2000"
    by simp
  with o s show ?thesis by simp
qed

section \<open>The allocation calculator and the whole pipeline\<close>

lemma foldl_add_sum_list:
  fixes f :: "'a \<Rightarrow> real"
  shows "foldl (\<lambda>sum a. sum + f a) z xs = z + sum_list (map f xs)"
  by (induction xs arbitrary: z) simp_all

lemma currentTotal_sum: "currentTotal assets = (\<Sum>a\<leftarrow>assets. shares a * price a)"
  by (simp add: currentTotal_def isNaN_def Let_def foldl_add_sum_list)

lemma length_basicComputed: "length (basicComputed assets additional) = length assets"
  by (simp add: basicComputed_def)

lemma length_computedAssets: "length (computedAssets assets additional) = length assets"
  by (simp add: computedAssets_def Let_def length_basicComputed)

lemma basic_fields:
  "price (Asset.extend a (BasicAsset.fields mv w d ts ta)) = price a"
  "target (Asset.extend a (BasicAsset.fields mv w d ts ta)) = target a"
  "marketValue (Asset.extend a (BasicAsset.fields mv w d ts ta)) = mv"
  "weight (Asset.extend a (BasicAsset.fields mv w d ts ta)) = w"
  "tradeShares (Asset.extend a (BasicAsset.fields mv w d ts ta)) = ts"
  "tradeAmount (Asset.extend a (BasicAsset.fields mv w d ts ta)) = ta"
  by (simp_all add: Asset.defs BasicAsset.defs)

lemma computed_fields:
  "price (BasicAsset.extend b (ComputedAsset.fields ats ata fw fd)) = price b"
  "weight (BasicAsset.extend b (ComputedAsset.fields ats ata fw fd)) = weight b"
  "tradeShares (BasicAsset.extend b (ComputedAsset.fields ats ata fw fd)) = tradeShares b"
  "tradeAmount (BasicAsset.extend b (ComputedAsset.fields ats ata fw fd)) = tradeAmount b"
  "adjustedTradeShares (BasicAsset.extend b (ComputedAsset.fields ats ata fw fd)) = ats"
  "finalWeight (BasicAsset.extend b (ComputedAsset.fields ats ata fw fd)) = fw"
  by (simp_all add: BasicAsset.defs ComputedAsset.defs)

lemma basicComputed_nth:
  assumes "i < length assets"
  shows "price (basicComputed assets additional ! i) = price (assets ! i)"
    and "weight (basicComputed assets additional ! i) =
           (if currentTotal assets > 0
            then (shares (assets ! i) * price (assets ! i) / currentTotal assets) * 100 else 0)"
    and "tradeAmount (basicComputed assets additional ! i) =
           (target (assets ! i) / 100) * targetTotal assets additional
             - shares (assets ! i) * price (assets ! i)"
    and "tradeShares (basicComputed assets additional ! i) =
           (if price (assets ! i) > 0
            then ((target (assets ! i) / 100) * targetTotal assets additional
                    - shares (assets ! i) * price (assets ! i)) / price (assets ! i)
            else 0)"
  using assms by (simp_all add: basicComputed_def Let_def basic_fields)

lemma computedAssets_nth:
  assumes "i < length assets"
  shows "weight (computedAssets assets additional ! i) = weight (basicComputed assets additional ! i)"
    and "tradeAmount (computedAssets assets additional ! i) =
           tradeAmount (basicComputed assets additional ! i)"
    and "tradeShares (computedAssets assets additional ! i) =
           tradeShares (basicComputed assets additional ! i)"
    and "adjustedTradeShares (computedAssets assets additional ! i) =
           optimizeTradeShares (basicComputed assets additional) ! i"
    and "finalWeight (computedAssets assets additional ! i) =
           (if targetTotal assets additional > 0
            then ((marketValue (basicComputed assets additional ! i)
                    + optimizeTradeShares (basicComputed assets additional) ! i
                      * price (basicComputed assets additional ! i))
                  / targetTotal assets additional) * 100
            else 0)"
  using assms by (simp_all add: computedAssets_def Let_def computed_fields length_basicComputed)


lemma searchLoop_keeps_unpriced:
  assumes "i < n" "prices ! i \<le> 0"
  shows "adjustedShares (searchLoop n prices s) ! i = adjustedShares s ! i"
proof (rule searchLoop_invariant [where P = "\<lambda>t. adjustedShares t ! i = adjustedShares s ! i"])
  show "adjustedShares s ! i = adjustedShares s ! i" ..
next
  fix t t'
  assume keep: "adjustedShares t ! i = adjustedShares s ! i"
    and body: "searchBody n prices t = Some t'"
  from searchBody_SomeD [OF body] obtain j d where j: "0 < prices ! j"
    and "t' = \<lparr>adjustedShares = (adjustedShares t)[j := adjustedShares t ! j + d * 100],
                  deviation = deviation t + d * 100 * prices ! j,
                  iter = iter t + 1\<rparr>"
    by blast
  then have adj: "adjustedShares t' = (adjustedShares t)[j := adjustedShares t ! j + d * 100]"
    by simp
  from j assms(2) have "j \<noteq> i" by auto
  with keep show "adjustedShares t' ! i = adjustedShares s ! i"
    by (simp add: adj)
qed

lemma optimize_keeps_unpriced:
  assumes "i < length cs" "price (cs ! i) \<le> 0"
  shows "optimizeTradeShares cs ! i = seedShares cs ! i"
proof (cases "\<bar>seedDeviation cs\<bar> < 1000")
  case True
  then show ?thesis by (simp add: optimizeTradeShares_def Let_def)
next
  case False
  from assms have "map price cs ! i \<le> 0" by simp
  from searchLoop_keeps_unpriced [OF assms(1) this] False show ?thesis
    by (simp add: optimizeTradeShares_def Let_def)
qed

lemma roundToHundred_zero: "roundToHundred 0 = 0"
  by (simp add: roundToHundred_def Math_round_def)

text \<open>
  C7. For an asset whose price is at most 0, the full pipeline gives the ideal trade
  quantity 0 and the adjusted trade quantity 0: the calculator sets the ideal quantity to 0,
  the seed of 0 is 0, and the search never moves an asset whose price is not positive.
\<close>

theorem unpriced_asset_never_trades:
  assumes "i < length assets" and "price (assets ! i) \<le> 0"
  shows "tradeShares (computedAssets assets additional ! i) = 0 \<and>
         adjustedTradeShares (computedAssets assets additional ! i) = 0"
proof -
  let ?basic = "basicComputed assets additional"
  from assms have ideal: "tradeShares (?basic ! i) = 0"
    by (simp add: basicComputed_nth)
  from assms have "i < length ?basic" "price (?basic ! i) \<le> 0"
    by (simp_all add: length_basicComputed basicComputed_nth)
  then have "optimizeTradeShares ?basic ! i = seedShares ?basic ! i"
    by (rule optimize_keeps_unpriced)
  also from \<open>i < length ?basic\<close> have "\<dots> = roundToHundred (tradeShares (?basic ! i))"
    by (simp add: seedShares_def)
  finally have "optimizeTradeShares ?basic ! i = 0"
    by (simp add: ideal roundToHundred_zero)
  with assms(1) ideal show ?thesis
    by (simp add: computedAssets_nth)
qed

lemma weights_eq:
  "map weight (computedAssets assets additional) =
   map (\<lambda>a. if currentTotal assets > 0
             then (shares a * price a / currentTotal assets) * 100 else 0) assets"
  by (rule nth_equalityI)
     (simp_all add: length_computedAssets computedAssets_nth basicComputed_nth)

lemma tradeAmounts_eq:
  "map tradeAmount (computedAssets assets additional) =
   map (\<lambda>a. (target a / 100) * targetTotal assets additional - shares a * price a) assets"
  by (rule nth_equalityI)
     (simp_all add: length_computedAssets computedAssets_nth basicComputed_nth)

text \<open>
  C8. If the current total is positive, the current weights of the computed assets sum to
  100 (exactly, the numbers being reals); if it is at most 0, every current weight is 0.
\<close>

theorem weights_sum_to_100:
  "(currentTotal assets > 0 \<longrightarrow>
      sum_list (map weight (computedAssets assets additional)) = 100) \<and>
   (currentTotal assets \<le> 0 \<longrightarrow>
      (\<forall>c \<in> set (computedAssets assets additional). weight c = 0))"
proof (intro conjI impI)
  assume pos: "currentTotal assets > 0"
  have "sum_list (map weight (computedAssets assets additional))
          = (\<Sum>a\<leftarrow>assets. (shares a * price a) * (100 / currentTotal assets))"
    using pos by (simp add: weights_eq)
  also have "\<dots> = (\<Sum>a\<leftarrow>assets. shares a * price a) * (100 / currentTotal assets)"
    by (rule sum_list_mult_const)
  also have "\<dots> = 100"
    using pos by (simp add: currentTotal_sum [symmetric])
  finally show "sum_list (map weight (computedAssets assets additional)) = 100" .
next
  assume "currentTotal assets \<le> 0"
  then have "map weight (computedAssets assets additional) = map (\<lambda>a. 0) assets"
    by (simp add: weights_eq)
  then have "\<forall>w \<in> set (map weight (computedAssets assets additional)). w = 0"
    by simp
  then show "\<forall>c \<in> set (computedAssets assets additional). weight c = 0"
    by simp
qed

text \<open>
  C2 (amended). If the target weights sum to 100, the ideal trade amounts sum to the
  injected cash (exactly, the numbers being reals), whatever its sign; with no injected
  cash they sum to 0.
\<close>

theorem trade_amounts_sum_to_injected_cash:
  assumes "sum_list (map target assets) = 100"
  shows "totalTradeAmount assets additional = additional"
proof -
  have "totalTradeAmount assets additional
          = sum_list (map tradeAmount (computedAssets assets additional))"
    by (simp add: totalTradeAmount_def foldl_add_sum_list)
  also have "\<dots> = (\<Sum>a\<leftarrow>assets. target a * (targetTotal assets additional / 100))
                      - (\<Sum>a\<leftarrow>assets. shares a * price a)"
    by (simp add: tradeAmounts_eq sum_list_subtractf)
  also have "(\<Sum>a\<leftarrow>assets. target a * (targetTotal assets additional / 100))
               = sum_list (map target assets) * (targetTotal assets additional / 100)"
    by (rule sum_list_mult_const)
  finally have "totalTradeAmount assets additional
      = sum_list (map target assets) * (targetTotal assets additional / 100) - currentTotal assets"
    by (simp only: currentTotal_sum)
  also have "\<dots> = targetTotal assets additional - currentTotal assets"
    by (simp add: assms)
  also have "\<dots> = additional"
    by (simp add: targetTotal_def isNaN_def)
  finally show ?thesis .
qed

text \<open>
  C9. The calculator returns a result for every input, one computed asset per asset. If the
  current total is at most 0, every current weight is the number 0; if the target total is
  at most 0, every final weight is the number 0. In both cases the quotient by the total is
  not the value taken.
\<close>

theorem zero_denominator_weights:
  "(currentTotal assets \<le> 0 \<longrightarrow>
      (\<forall>i < length assets. weight (computedAssets assets additional ! i) = 0)) \<and>
   (targetTotal assets additional \<le> 0 \<longrightarrow>
      (\<forall>i < length assets. finalWeight (computedAssets assets additional ! i) = 0)) \<and>
   length (computedAssets assets additional) = length assets"
  by (simp add: computedAssets_nth basicComputed_nth length_computedAssets)


theorem unpriced_asset_never_trades_witness:
  "(2::nat) < length [holding 50 1000 10, holding 30 500 20, holding 20 300 0] \<and>
   price ([holding 50 1000 10, holding 30 500 20, holding 20 300 0] ! 2) \<le> 0 \<and>
   tradeShares (computedAssets [holding 50 1000 10, holding 30 500 20, holding 20 300 0] 5000 ! 2) = 0 \<and>
   adjustedTradeShares
     (computedAssets [holding 50 1000 10, holding 30 500 20, holding 20 300 0] 5000 ! 2) = 0"
proof -
  let ?as = "[holding 50 1000 10, holding 30 500 20, holding 20 300 0]"
  have h1: "(2::nat) < length ?as" by simp
  have h2: "price (?as ! 2) \<le> 0" by (simp add: holding_def)
  from unpriced_asset_never_trades [OF h1 h2, of 5000] h1 h2 show ?thesis
    by simp
qed

theorem weights_sum_to_100_witness:
  "currentTotal [holding 50 1000 10, holding 30 500 20, holding 20 0 5] > 0 \<and>
   sum_list (map weight (computedAssets [holding 50 1000 10, holding 30 500 20, holding 20 0 5] 0)) = 100 \<and>
   currentTotal [holding 60 0 10, holding 40 (- 5) 10] \<le> 0 \<and>
   weight (computedAssets [holding 60 0 10, holding 40 (- 5) 10] 0 ! 0) = 0 \<and>
   weight (computedAssets [holding 60 0 10, holding 40 (- 5) 10] 0 ! 1) = 0"
proof -
  let ?xs = "[holding 50 1000 10, holding 30 500 20, holding 20 0 5]"
  let ?ys = "[holding 60 0 10, holding 40 (- 5) 10]"
  have h1: "currentTotal ?xs > 0"
    by (simp add: currentTotal_def holding_def isNaN_def)
  have h2: "currentTotal ?ys \<le> 0"
    by (simp add: currentTotal_def holding_def isNaN_def)
  from weights_sum_to_100 [of ?xs 0] h1
  have a: "sum_list (map weight (computedAssets ?xs 0)) = 100"
    by blast
  from weights_sum_to_100 [of ?ys 0] h2
  have b: "\<forall>c \<in> set (computedAssets ?ys 0). weight c = 0"
    by blast
  have "computedAssets ?ys 0 ! 0 \<in> set (computedAssets ?ys 0)"
    "computedAssets ?ys 0 ! 1 \<in> set (computedAssets ?ys 0)"
    by (simp_all add: length_computedAssets)
  with b have "weight (computedAssets ?ys 0 ! 0) = 0" "weight (computedAssets ?ys 0 ! 1) = 0"
    by blast+
  with h1 h2 a show ?thesis by blast
qed

theorem trade_amounts_sum_to_injected_cash_witness:
  "sum_list (map target [holding 50 1000 10, holding 30 500 20, holding 20 0 5]) = 100 \<and>
   totalTradeAmount [holding 50 1000 10, holding 30 500 20, holding 20 0 5] 1000 = 1000"
proof -
  have h: "sum_list (map target [holding 50 1000 10, holding 30 500 20, holding 20 0 5]) = 100"
    by (simp add: holding_def)
  from trade_amounts_sum_to_injected_cash [OF h, of 1000] h show ?thesis
    by blast
qed

text \<open>
  C2 as stated fails when the targets do not sum to 100: with targets 30 and 20, holdings
  worth 100 and no injected cash, the ideal trade amounts sum to -50.
\<close>

theorem trade_amounts_counterexample:
  "totalTradeAmount [holding 30 100 1, holding 20 0 5] 0 = - 50 \<and>
   totalTradeAmount [holding 30 100 1, holding 20 0 5] 0 \<noteq> 0"
  by code_simp

theorem zero_denominator_weights_witness:
  "currentTotal [holding 60 0 10, holding 40 (- 5) 10] \<le> 0 \<and>
   targetTotal [holding 60 0 10, holding 40 (- 5) 10] 20 \<le> 0 \<and>
   weight (computedAssets [holding 60 0 10, holding 40 (- 5) 10] 20 ! 1) = 0 \<and>
   finalWeight (computedAssets [holding 60 0 10, holding 40 (- 5) 10] 20 ! 1) = 0"
proof -
  let ?as = "[holding 60 0 10, holding 40 (- 5) 10]"
  have h1: "currentTotal ?as \<le> 0"
    by (simp add: currentTotal_def holding_def isNaN_def)
  have h2: "targetTotal ?as 20 \<le> 0"
    by (simp add: targetTotal_def currentTotal_def holding_def isNaN_def)
  from zero_denominator_weights [of ?as 20] h1 h2
  have "\<forall>i < length ?as. weight (computedAssets ?as 20 ! i) = 0"
    and "\<forall>i < length ?as. finalWeight (computedAssets ?as 20 ! i) = 0"
    by blast+
  then have "weight (computedAssets ?as 20 ! 1) = 0" "finalWeight (computedAssets ?as 20 ! 1) = 0"
    by simp_all
  with h1 h2 show ?thesis by blast
qed

section \<open>The selection rule of an iteration\<close>












section \<open>The search in double-precision arithmetic\<close>

lemma binaryExponent_numeral:
  "binaryExponent (numeral n) x =
     (if 2 \<le> x then binaryExponent (pred_numeral n) (x / 2) + 1
      else if x < 1 then binaryExponent (pred_numeral n) (x * 2) - 1
      else 0)"
  by (simp add: numeral_eq_Suc)

lemma toDouble_price: "toDouble (3202 / 100) = 4506414377137603 / 140737488355328"
  by (simp add: toDouble_def binaryExponent_numeral roundTiesToEven_def Let_def)

text \<open>The roundings that occur in the run on \<^const>\<open>failingInput\<close>, one by one.\<close>

lemma fp_op_0: "fp_div 1050 100 = 21 / 2"
  by (simp add: fp_div_def toDouble_def binaryExponent_numeral roundTiesToEven_def Let_def)

lemma fp_op_1: "fp_mul 11 100 = 1100"
  by (simp add: fp_mul_def toDouble_def binaryExponent_numeral roundTiesToEven_def Let_def)

lemma fp_op_2: "fp_div 0 100 = 0"
  by (simp add: fp_div_def toDouble_def binaryExponent_numeral roundTiesToEven_def Let_def)

lemma fp_op_3: "fp_mul 0 100 = 0"
  by (simp add: fp_mul_def toDouble_def binaryExponent_numeral roundTiesToEven_def Let_def)

lemma fp_op_4: "fp_mul 1100 (4506414377137603 / 140737488355328) = 35222"
  by (simp add: fp_mul_def toDouble_def binaryExponent_numeral roundTiesToEven_def Let_def)

lemma fp_op_5: "fp_add 0 35222 = 35222"
  by (simp add: fp_add_def toDouble_def binaryExponent_numeral roundTiesToEven_def Let_def)

lemma fp_op_6: "fp_mul 0 0 = 0"
  by (simp add: fp_mul_def toDouble_def binaryExponent_numeral roundTiesToEven_def Let_def)

lemma fp_op_7: "fp_add 35222 0 = 35222"
  by (simp add: fp_add_def toDouble_def binaryExponent_numeral roundTiesToEven_def Let_def)

lemma fp_op_8: "fp_mul 1050 (4506414377137603 / 140737488355328) = 33621"
  by (simp add: fp_mul_def toDouble_def binaryExponent_numeral roundTiesToEven_def Let_def)

lemma fp_op_9: "fp_add 0 33621 = 33621"
  by (simp add: fp_add_def toDouble_def binaryExponent_numeral roundTiesToEven_def Let_def)

lemma fp_op_10: "fp_add 33621 0 = 33621"
  by (simp add: fp_add_def toDouble_def binaryExponent_numeral roundTiesToEven_def Let_def)

lemma fp_op_11: "fp_sub 35222 33621 = 1601"
  by (simp add: fp_sub_def toDouble_def binaryExponent_numeral roundTiesToEven_def Let_def)

lemma fp_op_12: "fp_mul (- 1) 100 = - 100"
  by (simp add: fp_mul_def toDouble_def binaryExponent_numeral roundTiesToEven_def Let_def)

lemma fp_op_13: "fp_add 1100 (- 100) = 1000"
  by (simp add: fp_add_def toDouble_def binaryExponent_numeral roundTiesToEven_def Let_def)

lemma fp_op_14: "fp_mul 1000 (4506414377137603 / 140737488355328) = 8801590580346881 / 274877906944"
  by (simp add: fp_mul_def toDouble_def binaryExponent_numeral roundTiesToEven_def Let_def)

lemma fp_op_15: "fp_sub (8801590580346881 / 274877906944) 35222 = - (880159058034687 / 274877906944)"
  by (simp add: fp_sub_def toDouble_def binaryExponent_numeral roundTiesToEven_def Let_def)

lemma fp_op_16: "fp_add 1601 (- (880159058034687 / 274877906944)) = - (440079529017343 / 274877906944)"
  by (simp add: fp_add_def toDouble_def binaryExponent_numeral roundTiesToEven_def Let_def)

lemma fp_op_17: "fp_sub 1601 (440079529017343 / 274877906944) = 1 / 274877906944"
  by (simp add: fp_sub_def toDouble_def binaryExponent_numeral roundTiesToEven_def Let_def)

lemma fp_op_18: "fp_mul 1 100 = 100"
  by (simp add: fp_mul_def toDouble_def binaryExponent_numeral roundTiesToEven_def Let_def)

lemma fp_op_19: "fp_add 1100 100 = 1200"
  by (simp add: fp_add_def toDouble_def binaryExponent_numeral roundTiesToEven_def Let_def)

lemma fp_op_20: "fp_mul 1200 (4506414377137603 / 140737488355328) = 5280954348208129 / 137438953472"
  by (simp add: fp_mul_def toDouble_def binaryExponent_numeral roundTiesToEven_def Let_def)

lemma fp_op_21: "fp_sub (5280954348208129 / 137438953472) 35222 = 440079529017345 / 137438953472"
  by (simp add: fp_sub_def toDouble_def binaryExponent_numeral roundTiesToEven_def Let_def)

lemma fp_op_22: "fp_add 1601 (440079529017345 / 137438953472) = 660119293526017 / 137438953472"
  by (simp add: fp_add_def toDouble_def binaryExponent_numeral roundTiesToEven_def Let_def)

lemma fp_op_23: "fp_sub 1601 (660119293526017 / 137438953472) = - (440079529017345 / 137438953472)"
  by (simp add: fp_sub_def toDouble_def binaryExponent_numeral roundTiesToEven_def Let_def)

lemma fp_op_24: "fp_mul (- 100) (4506414377137603 / 140737488355328) = - (7041272464277505 / 2199023255552)"
  by (simp add: fp_mul_def toDouble_def binaryExponent_numeral roundTiesToEven_def Let_def)

lemma fp_op_25: "fp_add 1601 (- (7041272464277505 / 2199023255552)) = - (3520636232138753 / 2199023255552)"
  by (simp add: fp_add_def toDouble_def binaryExponent_numeral roundTiesToEven_def Let_def)

lemma fp_op_26: "fp_add 1000 (- 100) = 900"
  by (simp add: fp_add_def toDouble_def binaryExponent_numeral roundTiesToEven_def Let_def)

lemma fp_op_27: "fp_mul 900 (4506414377137603 / 140737488355328) = 7921431522312193 / 274877906944"
  by (simp add: fp_mul_def toDouble_def binaryExponent_numeral roundTiesToEven_def Let_def)

lemma fp_op_28: "fp_sub (7921431522312193 / 274877906944) (8801590580346881 / 274877906944) = - 3202"
  by (simp add: fp_sub_def toDouble_def binaryExponent_numeral roundTiesToEven_def Let_def)

lemma fp_op_29: "fp_add (- (3520636232138753 / 2199023255552)) (- 3202) = - 4803"
  by (simp add: fp_add_def toDouble_def binaryExponent_numeral roundTiesToEven_def Let_def)

lemma fp_op_30: "fp_sub (3520636232138753 / 2199023255552) 4803 = - (7041272464277503 / 2199023255552)"
  by (simp add: fp_sub_def toDouble_def binaryExponent_numeral roundTiesToEven_def Let_def)

lemma fp_op_31: "fp_add 1000 100 = 1100"
  by (simp add: fp_add_def toDouble_def binaryExponent_numeral roundTiesToEven_def Let_def)

lemma fp_op_32: "fp_sub 35222 (8801590580346881 / 274877906944) = 880159058034687 / 274877906944"
  by (simp add: fp_sub_def toDouble_def binaryExponent_numeral roundTiesToEven_def Let_def)

lemma fp_op_33: "fp_add (- (3520636232138753 / 2199023255552)) (880159058034687 / 274877906944) = 3520636232138743 / 2199023255552"
  by (simp add: fp_add_def toDouble_def binaryExponent_numeral roundTiesToEven_def Let_def)

lemma fp_op_34: "fp_sub (3520636232138753 / 2199023255552) (3520636232138743 / 2199023255552) = 5 / 1099511627776"
  by (simp add: fp_sub_def toDouble_def binaryExponent_numeral roundTiesToEven_def Let_def)

lemma fp_op_35: "fp_mul 100 (4506414377137603 / 140737488355328) = 7041272464277505 / 2199023255552"
  by (simp add: fp_mul_def toDouble_def binaryExponent_numeral roundTiesToEven_def Let_def)

lemma fp_op_36: "fp_add (- (3520636232138753 / 2199023255552)) (7041272464277505 / 2199023255552) = 1601"
  by (simp add: fp_add_def toDouble_def binaryExponent_numeral roundTiesToEven_def Let_def)

lemmas fp_ops = fp_op_0 fp_op_1 fp_op_2 fp_op_3 fp_op_4 fp_op_5 fp_op_6 fp_op_7 fp_op_8 fp_op_9 fp_op_10 fp_op_11 fp_op_12 fp_op_13 fp_op_14 fp_op_15 fp_op_16 fp_op_17 fp_op_18 fp_op_19 fp_op_20 fp_op_21 fp_op_22 fp_op_23 fp_op_24 fp_op_25 fp_op_26 fp_op_27 fp_op_28 fp_op_29 fp_op_30 fp_op_31 fp_op_32 fp_op_33 fp_op_34 fp_op_35 fp_op_36

lemma searchTrace_fp_last: "last (searchTrace_fp n prices s) = searchLoop_fp n prices s"
proof (induction n prices s rule: searchLoop_fp.induct)
  case (1 n prices s)
  show ?case
  proof (cases "searchCond s")
    case False
    then show ?thesis
      by (simp add: searchTrace_fp.simps [of n prices s] searchLoop_fp.simps [of n prices s])
  next
    case True
    show ?thesis
    proof (cases "searchBody_fp n prices s")
      case None
      with True show ?thesis
        by (simp add: searchTrace_fp.simps [of n prices s] searchLoop_fp.simps [of n prices s])
    next
      case (Some s')
      have "searchTrace_fp n prices s' \<noteq> []"
        by (simp add: searchTrace_fp.simps [of n prices s'])
      with True Some "1.IH" [OF True Some] show ?thesis
        by (simp add: searchTrace_fp.simps [of n prices s] searchLoop_fp.simps [of n prices s])
    qed
  qed
qed

lemma failing_prices: "map price failingInput = [4506414377137603 / 140737488355328, 0, 0, 0, 0]"
  unfolding failingInput_def idealAsset_def toDouble_price by simp

lemma failing_length: "length failingInput = 5"
  by (simp add: failingInput_def)

lemma failing_ideal: "map tradeShares failingInput = [1050, 0, 0, 0, 0]"
  by (simp add: failingInput_def idealAsset_def)

lemma failing_seed: "seedShares_fp failingInput = [1100, 0, 0, 0, 0]"
  by (simp add: failingInput_def idealAsset_def seedShares_fp_def roundToHundred_fp_def
      Math_round_def fp_ops)

lemma failing_deviation: "seedDeviation_fp failingInput = 1601"
  unfolding seedDeviation_fp_def Let_def failing_seed failing_prices failing_ideal
  by (simp add: totalAmount_fp_def fp_ops)

lemma step_odd:
  "searchBody_fp 5 [4506414377137603 / 140737488355328, 0, 0, 0, 0]
     \<lparr>adjustedShares = [1100, 0, 0, 0, 0], deviation = 1601, iter = k\<rparr>
   = Some \<lparr>adjustedShares = [1000, 0, 0, 0, 0], deviation = - (3520636232138753 / 2199023255552), iter = k + 1\<rparr>"
  by (simp add: searchBody_fp_def findBest_fp_def tryAsset_fp_def tryDirection_fp_def Let_def
      upt_rec fp_ops)

lemma step_even:
  "searchBody_fp 5 [4506414377137603 / 140737488355328, 0, 0, 0, 0]
     \<lparr>adjustedShares = [1000, 0, 0, 0, 0], deviation = - (3520636232138753 / 2199023255552), iter = k\<rparr>
   = Some \<lparr>adjustedShares = [1100, 0, 0, 0, 0], deviation = 1601, iter = k + 1\<rparr>"
  by (simp add: searchBody_fp_def findBest_fp_def tryAsset_fp_def tryDirection_fp_def Let_def
      upt_rec fp_ops)

lemma trace_unroll:
  "searchCond s \<Longrightarrow> searchBody_fp n prices s = Some s' \<Longrightarrow>
     searchTrace_fp n prices s = s # searchTrace_fp n prices s'"
  by (simp add: searchTrace_fp.simps [of n prices s])

lemma two_moves:
  assumes "k + 1 < 20"
  shows "searchTrace_fp 5 [4506414377137603 / 140737488355328, 0, 0, 0, 0]
           \<lparr>adjustedShares = [1100, 0, 0, 0, 0], deviation = 1601, iter = k\<rparr>
         = \<lparr>adjustedShares = [1100, 0, 0, 0, 0], deviation = 1601, iter = k\<rparr>
           # \<lparr>adjustedShares = [1000, 0, 0, 0, 0], deviation = - (3520636232138753 / 2199023255552), iter = k + 1\<rparr>
           # searchTrace_fp 5 [4506414377137603 / 140737488355328, 0, 0, 0, 0]
               \<lparr>adjustedShares = [1100, 0, 0, 0, 0], deviation = 1601, iter = k + 2\<rparr>"
proof -
  have c1: "searchCond \<lparr>adjustedShares = [1100, 0, 0, 0, 0], deviation = 1601, iter = k\<rparr>"
    using assms by (simp add: searchCond_def maxIterations_def)
  have c2: "searchCond \<lparr>adjustedShares = [1000, 0, 0, 0, 0], deviation = - (3520636232138753 / 2199023255552), iter = k + 1\<rparr>"
    using assms by (simp add: searchCond_def maxIterations_def)
  have "k + 1 + 1 = k + 2" by simp
  with trace_unroll [OF c1 step_odd] trace_unroll [OF c2 step_even] show ?thesis
    by (simp only:)
qed

lemma trace_end:
  "searchTrace_fp 5 [4506414377137603 / 140737488355328, 0, 0, 0, 0] \<lparr>adjustedShares = [1100, 0, 0, 0, 0], deviation = 1601, iter = 20\<rparr>
     = [\<lparr>adjustedShares = [1100, 0, 0, 0, 0], deviation = 1601, iter = 20\<rparr>]"
  by (simp add: searchTrace_fp.simps [of 5 "[4506414377137603 / 140737488355328, 0, 0, 0, 0]" "\<lparr>adjustedShares = [1100, 0, 0, 0, 0], deviation = 1601, iter = 20\<rparr>"]
      searchCond_def maxIterations_def)

lemma trace_from:
  assumes "j \<le> 10"
  shows "length (searchTrace_fp 5 [4506414377137603 / 140737488355328, 0, 0, 0, 0] \<lparr>adjustedShares = [1100, 0, 0, 0, 0], deviation = 1601, iter = 20 - 2 * j\<rparr>)
           = 2 * j + 1 \<and>
         last (searchTrace_fp 5 [4506414377137603 / 140737488355328, 0, 0, 0, 0] \<lparr>adjustedShares = [1100, 0, 0, 0, 0], deviation = 1601, iter = 20 - 2 * j\<rparr>)
           = \<lparr>adjustedShares = [1100, 0, 0, 0, 0], deviation = 1601, iter = 20\<rparr>"
  using assms
proof (induction j)
  case 0
  show ?case by (simp add: trace_end)
next
  case (Suc j)
  let ?k = "20 - 2 * Suc j"
  from Suc.prems have k: "?k + 1 < 20" and next_k: "?k + 2 = 20 - 2 * j"
    by simp_all
  from Suc have IH:
    "length (searchTrace_fp 5 [4506414377137603 / 140737488355328, 0, 0, 0, 0] \<lparr>adjustedShares = [1100, 0, 0, 0, 0], deviation = 1601, iter = ?k + 2\<rparr>)
       = 2 * j + 1"
    "last (searchTrace_fp 5 [4506414377137603 / 140737488355328, 0, 0, 0, 0] \<lparr>adjustedShares = [1100, 0, 0, 0, 0], deviation = 1601, iter = ?k + 2\<rparr>)
       = \<lparr>adjustedShares = [1100, 0, 0, 0, 0], deviation = 1601, iter = 20\<rparr>"
    by (simp_all only: next_k)
  have ne: "searchTrace_fp 5 [4506414377137603 / 140737488355328, 0, 0, 0, 0] \<lparr>adjustedShares = [1100, 0, 0, 0, 0], deviation = 1601, iter = ?k + 2\<rparr> \<noteq> []"
    using IH(1) by auto
  show ?case
    unfolding two_moves [OF k] using IH ne by simp
qed

lemma failing_trace_start:
  "optimizerTrace_fp failingInput =
     searchTrace_fp 5 [4506414377137603 / 140737488355328, 0, 0, 0, 0] \<lparr>adjustedShares = [1100, 0, 0, 0, 0], deviation = 1601, iter = 0\<rparr>"
  unfolding optimizerTrace_fp_def failing_seed failing_deviation failing_prices failing_length ..

lemma failing_trace_length: "length (optimizerTrace_fp failingInput) = 21"
  using trace_from [of 10] by (simp add: failing_trace_start)

lemma failing_trace_0:
  "optimizerTrace_fp failingInput ! 0 = \<lparr>adjustedShares = [1100, 0, 0, 0, 0], deviation = 1601, iter = 0\<rparr>"
  by (simp add: failing_trace_start two_moves [of 0, simplified])

lemma failing_trace_1:
  "optimizerTrace_fp failingInput ! 1 = \<lparr>adjustedShares = [1000, 0, 0, 0, 0], deviation = - (3520636232138753 / 2199023255552), iter = 1\<rparr>"
  by (simp add: failing_trace_start two_moves [of 0, simplified])

lemma failing_result: "optimizeTradeShares_fp failingInput = [1100, 0, 0, 0, 0]"
proof -
  have "searchLoop_fp 5 [4506414377137603 / 140737488355328, 0, 0, 0, 0] \<lparr>adjustedShares = [1100, 0, 0, 0, 0], deviation = 1601, iter = 0\<rparr>
          = \<lparr>adjustedShares = [1100, 0, 0, 0, 0], deviation = 1601, iter = 20\<rparr>"
    using trace_from [of 10] by (simp add: searchTrace_fp_last)
  then show ?thesis
    unfolding optimizeTradeShares_fp_def failing_seed failing_deviation failing_prices
      failing_length
    by (simp add: Let_def)
qed

lemma exact_no_move: "length (optimizerTrace failingInput) = 1"
  unfolding failingInput_def toDouble_price by code_simp

text \<open>
  C5 fails of the code, whose numbers are doubles. On \<^const>\<open>failingInput\<close> the seed is 1100
  with deviation 1601. Moving the first asset down one lot is scored with the improvement
  \<open>2^-38\<close> and applied, and the update leaves the deviation \<open>-(1601 + 2^-41)\<close>: its absolute
  value has risen. The search goes on through all 20 iterations (21 states), the quantity
  alternating between 1100 and 1000, and returns the seed. With exact arithmetic the same
  move has the improvement 0 and the search makes no move.
\<close>

theorem deviation_rises_in_double_arithmetic:
  "optimizerTrace_fp failingInput ! 0
     = \<lparr>adjustedShares = [1100, 0, 0, 0, 0], deviation = 1601, iter = 0\<rparr> \<and>
   optimizerTrace_fp failingInput ! 1
     = \<lparr>adjustedShares = [1000, 0, 0, 0, 0],
        deviation = - (3520636232138753 / 2199023255552), iter = 1\<rparr> \<and>
   \<bar>deviation (optimizerTrace_fp failingInput ! 0)\<bar>
     < \<bar>deviation (optimizerTrace_fp failingInput ! 1)\<bar> \<and>
   length (optimizerTrace_fp failingInput) = 21 \<and>
   optimizeTradeShares_fp failingInput = [1100, 0, 0, 0, 0] \<and>
   length (optimizerTrace failingInput) = 1"
  unfolding failing_trace_0 failing_trace_1 failing_trace_length failing_result exact_no_move
  by simp

end
